theory Spec2Isabelle
  imports Complex_Main "HOL-Library.Finite_Map"
begin

section \<open>JavaScript values\<close>

text \<open>
  The values that flow through \<^verbatim>\<open>src/message.js\<close>. Numbers are the integral ones
  (\<^verbatim>\<open>NaN\<close> and fractions are not represented); an object is the finite map of its
  own enumerable properties.
\<close>

datatype jsval =
    JUndefined
  | JNull
  | JBool bool
  | JNum int
  | JStr string
  | JArr "jsval list"
  | JObj "(string, jsval) fmap"

datatype js_error = TypeError | PatternNotModelled

text \<open>ToBoolean, as used by \<^verbatim>\<open>!x\<close>, \<^verbatim>\<open>x || y\<close>, \<^verbatim>\<open>x && y\<close> and \<^verbatim>\<open>if (x)\<close>.\<close>

fun truthy :: "jsval \<Rightarrow> bool" where
  "truthy JUndefined = False"
| "truthy JNull = False"
| "truthy (JBool b) = b"
| "truthy (JNum n) = (n \<noteq> 0)"
| "truthy (JStr s) = (s \<noteq> [])"
| "truthy (JArr xs) = True"
| "truthy (JObj fs) = True"

text \<open>
  Identifiers and credentials of \<^verbatim>\<open>meta\<close> are strings or absent: \<open>None\<close> is
  \<^verbatim>\<open>undefined\<close>. \<^verbatim>\<open>a || b\<close> on such values keeps \<open>a\<close> unless it is absent or the
  empty string.
\<close>

fun or_else :: "string option \<Rightarrow> string option \<Rightarrow> string option" where
  "or_else None b = b"
| "or_else (Some s) b = (if s = [] then b else Some s)"

text \<open>An element of \<^verbatim>\<open>Array.prototype.join\<close>: \<^verbatim>\<open>undefined\<close> contributes the empty string.\<close>

fun join_elem :: "string option \<Rightarrow> string" where
  "join_elem None = []"
| "join_elem (Some s) = s"

fun join :: "string \<Rightarrow> string option list \<Rightarrow> string" where
  "join sep [] = []"
| "join sep [x] = join_elem x"
| "join sep (x # y # ys) = join_elem x @ sep @ join sep (y # ys)"

text \<open>An identifier interpolated into a template literal: \<^verbatim>\<open>undefined\<close> prints its name.\<close>

fun template_str :: "string option \<Rightarrow> string" where
  "template_str None = ''undefined''"
| "template_str (Some s) = s"

fun to_jsval :: "string option \<Rightarrow> jsval" where
  "to_jsval None = JUndefined"
| "to_jsval (Some s) = JStr s"

section \<open>Messages\<close>

text \<open>
  The class \<^verbatim>\<open>Message\<close>. The fields \<open>mtype\<close>, \<open>mbody\<close> and \<open>mmeta\<close> are \<^verbatim>\<open>type\<close>,
  \<^verbatim>\<open>body\<close> and \<^verbatim>\<open>meta\<close>, \<open>slackapp\<close> is \<^verbatim>\<open>_slackapp\<close>, and \<open>etype\<close> and \<open>etext\<close> are
  \<^verbatim>\<open>body.event.type\<close> and \<^verbatim>\<open>body.event.text\<close>. The handlers of the application take a
  message of type \<open>'m\<close> and a state and return an \<open>'r\<close>.
\<close>

record meta =
  team_id :: "string option"
  channel_id :: "string option"
  user_id :: "string option"
  bot_id :: "string option"
  bot_token :: "string option"
  app_token :: "string option"
  bot_user_id :: "string option"

record slack_event =
  etype :: "string option"
  etext :: "string option"

record body =
  event :: "slack_event option"

type_synonym ref = nat

record ('m, 'r) message =
  mtype :: string
  mbody :: body
  mmeta :: meta
  conversation_id :: string
  slackapp :: "ref option"
  override :: "('m \<Rightarrow> 'r) option"

text \<open>The actor of a conversation: \<^verbatim>\<open>meta.user_id || meta.bot_id\<close>.\<close>

definition actor_id :: "meta \<Rightarrow> string option" where
  "actor_id m = or_else (user_id m) (bot_id m)"

definition derive_conversation_id :: "meta \<Rightarrow> string" where
  "derive_conversation_id m = join ''::'' [team_id m, channel_id m, actor_id m]"

text \<open>The constructor: \<^verbatim>\<open>override\<close> is not set, \<^verbatim>\<open>_slackapp\<close> is \<^verbatim>\<open>null\<close>.\<close>

definition new_message :: "string \<Rightarrow> body \<Rightarrow> meta \<Rightarrow> ('m, 'r) message" where
  "new_message t b m =
     \<lparr> mtype = t, mbody = b, mmeta = m,
       conversation_id = derive_conversation_id m,
       slackapp = None, override = None \<rparr>"

definition attachSlackApp :: "('m, 'r) message \<Rightarrow> ref \<Rightarrow> ('m, 'r) message" where
  "attachSlackApp msg r = msg\<lparr>slackapp := Some r\<rparr>"

section \<open>Conversation identity\<close>


section \<open>The conversation store and the route registry\<close>

record continuation =
  fnKey :: string
  state :: jsval
  expiration :: int

datatype store_call = StoreSet string continuation | StoreDel string

text \<open>
  Modelled from the spec: the conversation store \<^verbatim>\<open>slackapp.convoStore\<close> is an external
  key/value collaborator with \<^verbatim>\<open>set\<close>, \<^verbatim>\<open>get\<close> and \<^verbatim>\<open>del\<close>. Its contents are a map from
  conversation keys to pending continuations; \<open>calls\<close> records the writes it received,
  oldest first.
\<close>

record convo_store =
  entries :: "string \<rightharpoonup> continuation"
  calls :: "store_call list"

definition store_set :: "convo_store \<Rightarrow> string \<Rightarrow> continuation \<Rightarrow> convo_store" where
  "store_set st k c = \<lparr> entries = (entries st)(k \<mapsto> c), calls = calls st @ [StoreSet k c] \<rparr>"

definition store_get :: "convo_store \<Rightarrow> string \<Rightarrow> continuation option" where
  "store_get st k = entries st k"

definition store_del :: "convo_store \<Rightarrow> string \<Rightarrow> convo_store" where
  "store_del st k = \<lparr> entries = (entries st)(k := None), calls = calls st @ [StoreDel k] \<rparr>"

text \<open>
  Modelled from the spec: the route registry of the application, \<^verbatim>\<open>slackapp.getRoute\<close>,
  maps a handler key to a handler \<^verbatim>\<open>(msg, state) => ...\<close> or to nothing.
\<close>

record ('m, 'r) slack_app =
  convoStore :: convo_store
  routes :: "string \<rightharpoonup> ('m \<Rightarrow> jsval \<Rightarrow> 'r)"

definition getRoute :: "('m, 'r) slack_app \<Rightarrow> string \<Rightarrow> ('m \<Rightarrow> jsval \<Rightarrow> 'r) option" where
  "getRoute app k = routes app k"

text \<open>The application objects live in a store; a message holds a reference to one.\<close>

type_synonym ('m, 'r) heap = "ref \<Rightarrow> ('m, 'r) slack_app"

section \<open>The conversation router\<close>

text \<open>
  \<^verbatim>\<open>attachOverrideRoute (fnKey, state)\<close>: reading \<^verbatim>\<open>this._slackapp.getRoute\<close> of a message
  without an application raises a TypeError.
\<close>

definition attachOverrideRoute ::
  "('m, 'r) heap \<Rightarrow> ('m, 'r) message \<Rightarrow> string \<Rightarrow> jsval \<Rightarrow> js_error + ('m, 'r) message" where
  "attachOverrideRoute h msg k st =
     (case slackapp msg of
        None \<Rightarrow> Inl TypeError
      | Some r \<Rightarrow>
          (case getRoute (h r) k of
             None \<Rightarrow> Inr msg
           | Some fn \<Rightarrow> Inr (msg\<lparr>override := Some (\<lambda>m. fn m st)\<rparr>)))"

text \<open>
  \<^verbatim>\<open>route (fnKey, state, secondsToExpire)\<close> at time \<open>now\<close> (\<^verbatim>\<open>Date.now()\<close>); an omitted
  \<^verbatim>\<open>secondsToExpire\<close> is \<open>None\<close>. Returns the updated store of applications and \<^verbatim>\<open>this\<close>.
\<close>

definition hour :: int where
  "hour = 60 * 60"

definition route ::
  "('m, 'r) heap \<Rightarrow> int \<Rightarrow> ('m, 'r) message \<Rightarrow> string \<Rightarrow> jsval \<Rightarrow> int option
     \<Rightarrow> js_error + (('m, 'r) heap \<times> ('m, 'r) message)" where
  "route h now msg k st secondsToExpire =
     (let st' = (if \<not> truthy st then JObj fmempty else st);
          secs = (case secondsToExpire of
                    None \<Rightarrow> hour
                  | Some n \<Rightarrow> if n = 0 then hour else n);
          key = conversation_id msg;
          expi = now + secs * 1000
      in case slackapp msg of
           None \<Rightarrow> Inl TypeError
         | Some r \<Rightarrow>
             Inr (h(r := (h r)\<lparr>convoStore :=
                    store_set (convoStore (h r)) key
                      \<lparr> fnKey = k, state = st', expiration = expi \<rparr>\<rparr>),
                  msg))"

definition cancel :: "('m, 'r) heap \<Rightarrow> ('m, 'r) message \<Rightarrow> js_error + ('m, 'r) heap" where
  "cancel h msg =
     (case slackapp msg of
        None \<Rightarrow> Inl TypeError
      | Some r \<Rightarrow>
          Inr (h(r := (h r)\<lparr>convoStore :=
                 store_del (convoStore (h r)) (conversation_id msg)\<rparr>)))"

section \<open>The outbound dispatcher\<close>

text \<open>
  \<^verbatim>\<open>Math.random()\<close> is a parameter \<open>rnd\<close>, a real number with \<open>0 \<le> rnd < 1\<close>; the index
  drawn for an array of length \<open>n\<close> is \<^verbatim>\<open>Math.floor(rnd * n)\<close>.
\<close>

definition random_index :: "real \<Rightarrow> nat \<Rightarrow> nat" where
  "random_index rnd n = nat \<lfloor>rnd * real n\<rfloor>"

text \<open>\<^verbatim>\<open>xs[i]\<close>: reading an array out of range gives \<^verbatim>\<open>undefined\<close>.\<close>

definition array_get :: "jsval list \<Rightarrow> nat \<Rightarrow> jsval" where
  "array_get xs i = (if i < length xs then xs ! i else JUndefined)"

definition processInput :: "real \<Rightarrow> jsval \<Rightarrow> jsval" where
  "processInput rnd input =
     (let input1 = (case input of
                      JArr xs \<Rightarrow> array_get xs (random_index rnd (length xs))
                    | _ \<Rightarrow> input)
      in case input1 of
           JStr s \<Rightarrow> JObj (fmupd ''text'' (JStr s) fmempty)
         | _ \<Rightarrow> input1)"

text \<open>Decimal numerals, for the property names of array elements.\<close>

fun show_nat :: "nat \<Rightarrow> string" where
  "show_nat n =
     (if n < 10 then [char_of (48 + n)]
      else show_nat (n div 10) @ [char_of (48 + n mod 10)])"

text \<open>
  The own enumerable properties that \<^verbatim>\<open>Object.assign\<close> copies from a source:
  none for \<^verbatim>\<open>undefined\<close>, \<^verbatim>\<open>null\<close>, booleans and numbers; the elements under their
  indices for an array; the characters under their indices for a string.
\<close>

fun own_props :: "jsval \<Rightarrow> (string, jsval) fmap" where
  "own_props (JObj fs) = fs"
| "own_props (JArr xs) = fmap_of_list (zip (map show_nat [0..<length xs]) xs)"
| "own_props (JStr s) = fmap_of_list (zip (map show_nat [0..<length s]) (map (\<lambda>c. JStr [c]) s))"
| "own_props _ = fmempty"

definition object_assign :: "(string, jsval) fmap \<Rightarrow> jsval list \<Rightarrow> (string, jsval) fmap" where
  "object_assign target sources = fold (\<lambda>src acc. acc ++\<^sub>f own_props src) sources target"

text \<open>Reading a property of an object: \<^verbatim>\<open>undefined\<close> when it has none of that name.\<close>

definition get_field :: "(string, jsval) fmap \<Rightarrow> string \<Rightarrow> jsval" where
  "get_field fs k = (case fmlookup fs k of None \<Rightarrow> JUndefined | Some v \<Rightarrow> v)"

text \<open>
  \<^verbatim>\<open>say (input, callback)\<close>: the result is the payload handed to
  \<^verbatim>\<open>slack.chat.postMessage\<close>.
\<close>

definition say :: "real \<Rightarrow> ('m, 'r) message \<Rightarrow> jsval \<Rightarrow> (string, jsval) fmap" where
  "say rnd msg input =
     (let input' = processInput rnd input
      in object_assign fmempty
           [input',
            JObj (fmupd ''channel'' (to_jsval (channel_id (mmeta msg)))
                   (fmupd ''token''
                      (to_jsval (or_else (bot_token (mmeta msg)) (app_token (mmeta msg))))
                      fmempty))])"

text \<open>
  The callback of \<^verbatim>\<open>respond\<close>, run when the HTTP request completes with \<^verbatim>\<open>(err, res, body)\<close>.
  A transport error is \<open>Some e\<close>. The callback is called either with one argument, an error,
  or with \<^verbatim>\<open>null\<close> and the body.
\<close>

datatype 'e error_value = Transport 'e | Error jsval

datatype 'e callback_call = CallbackErr "'e error_value" | CallbackOk jsval

text \<open>\<^verbatim>\<open>body.error\<close>: a TypeError on \<^verbatim>\<open>undefined\<close> and \<^verbatim>\<open>null\<close>.\<close>

fun body_error :: "jsval \<Rightarrow> js_error + jsval" where
  "body_error JUndefined = Inl TypeError"
| "body_error JNull = Inl TypeError"
| "body_error (JObj fs) = Inr (get_field fs ''error'')"
| "body_error _ = Inr JUndefined"

text \<open>\<^verbatim>\<open>delete body.ok\<close>.\<close>

fun delete_ok :: "jsval \<Rightarrow> jsval" where
  "delete_ok (JObj fs) = JObj (fmdrop ''ok'' fs)"
| "delete_ok v = v"

fun starts_with :: "string \<Rightarrow> string \<Rightarrow> bool" where
  "starts_with s [] = True"
| "starts_with [] (p # ps) = False"
| "starts_with (c # cs) (p # ps) = (c = p \<and> starts_with cs ps)"

text \<open>\<^verbatim>\<open>String.prototype.includes\<close>.\<close>

fun string_includes :: "string \<Rightarrow> string \<Rightarrow> bool" where
  "string_includes [] sub = (sub = [])"
| "string_includes (c # cs) sub = (starts_with (c # cs) sub \<or> string_includes cs sub)"

definition rateLimit :: string where
  "rateLimit = ''You are sending too many requests. Please relax.''"

definition respond_callback :: "'e option \<Rightarrow> jsval \<Rightarrow> js_error + 'e callback_call" where
  "respond_callback err body =
     (case err of
        Some e \<Rightarrow> Inr (CallbackErr (Transport e))
      | None \<Rightarrow>
          (case body_error body of
             Inl x \<Rightarrow> Inl x
           | Inr v \<Rightarrow>
               if truthy v then Inr (CallbackErr (Error v))
               else if (case body of JStr s \<Rightarrow> string_includes s rateLimit | _ \<Rightarrow> False)
               then Inr (CallbackErr (Error (JStr ''rate_limit'')))
               else Inr (CallbackOk (delete_ok body))))"

section \<open>Resolving a continuation\<close>

text \<open>
  Modelled from the spec: the receiver, which is not part of \<^verbatim>\<open>src/message.js\<close>, resolves
  the pending continuation of an inbound message by reading the store at the message's
  conversation key and handing the stored handler key and state to
  \<^verbatim>\<open>attachOverrideRoute\<close>. Expiry is not checked here.
\<close>

definition resolve_override :: "('m, 'r) heap \<Rightarrow> ('m, 'r) message \<Rightarrow> js_error + ('m, 'r) message" where
  "resolve_override h msg =
     (case slackapp msg of
        None \<Rightarrow> Inl TypeError
      | Some r \<Rightarrow>
          (case store_get (convoStore (h r)) (conversation_id msg) of
             None \<Rightarrow> Inr msg
           | Some c \<Rightarrow> attachOverrideRoute h msg (fnKey c) (state c)))"

text \<open>Invoking \<^verbatim>\<open>msg.override\<close>, when there is one, with a new event.\<close>

definition call_override :: "('m, 'r) message \<Rightarrow> 'm \<Rightarrow> 'r option" where
  "call_override msg e = map_option (\<lambda>g. g e) (override msg)"

text \<open>
  Modelled from the spec: the resolution of a continuation at a time \<open>t\<close>, with the expiry
  that the consumer of the store applies at lookup. A continuation found at the
  conversation key is handed to \<^verbatim>\<open>attachOverrideRoute\<close> when \<open>t\<close> is before its stored
  expiration; an expired one gives no override.
\<close>

definition resolve_override_at ::
  "('m, 'r) heap \<Rightarrow> int \<Rightarrow> ('m, 'r) message \<Rightarrow> js_error + ('m, 'r) message" where
  "resolve_override_at h t msg =
     (case slackapp msg of
        None \<Rightarrow> Inl TypeError
      | Some r \<Rightarrow>
          (case store_get (convoStore (h r)) (conversation_id msg) of
             None \<Rightarrow> Inr msg
           | Some c \<Rightarrow>
               if t < expiration c then attachOverrideRoute h msg (fnKey c) (state c)
               else Inr msg))"

text \<open>
  \<^verbatim>\<open>msg.route (k, st, ttl)\<close> at time \<open>now\<close> followed, for a later message \<open>msg2\<close>, by the
  resolution of its continuation at time \<open>t\<close> and the call of the override with the
  event \<open>e\<close>.
\<close>

definition route_then_resolve ::
  "('m, 'r) heap \<Rightarrow> int \<Rightarrow> ('m, 'r) message \<Rightarrow> string \<Rightarrow> jsval \<Rightarrow> int option
     \<Rightarrow> int \<Rightarrow> ('m, 'r) message \<Rightarrow> 'm \<Rightarrow> js_error + 'r option" where
  "route_then_resolve h now msg k st ttl t msg2 e =
     (case route h now msg k st ttl of
        Inl x \<Rightarrow> Inl x
      | Inr (h', m) \<Rightarrow>
          (case resolve_override_at h' t msg2 of
             Inl x \<Rightarrow> Inl x
           | Inr m2 \<Rightarrow> Inr (call_override m2 e)))"

text \<open>The store of the message's application after \<^verbatim>\<open>msg.route (k, st, ttl)\<close>.\<close>

definition store_after_route ::
  "('m, 'r) heap \<Rightarrow> int \<Rightarrow> ('m, 'r) message \<Rightarrow> string \<Rightarrow> jsval \<Rightarrow> int option
     \<Rightarrow> convo_store option" where
  "store_after_route h now msg k st ttl =
     (case route h now msg k st ttl of
        Inl x \<Rightarrow> None
      | Inr (h', m) \<Rightarrow> map_option (\<lambda>r. convoStore (h' r)) (slackapp m))"

section \<open>Regular expressions\<close>

text \<open>
  The fragment of the regular expressions of JavaScript that \<^verbatim>\<open>src/message.js\<close> builds:
  literal characters, \<^verbatim>\<open>.\<close>, \<^verbatim>\<open>^\<close>, character classes, capturing groups and the greedy
  quantifiers, with the flags \<^verbatim>\<open>i\<close> and \<^verbatim>\<open>g\<close>. A string is its sequence of code units;
  code units are those below 256.
\<close>

definition is_alnum :: "char \<Rightarrow> bool" where
  "is_alnum c =
     (let n = (of_char c :: nat)
      in (48 \<le> n \<and> n \<le> 57) \<or> (65 \<le> n \<and> n \<le> 90) \<or> (97 \<le> n \<and> n \<le> 122))"

text \<open>
  Canonicalize of the flag \<^verbatim>\<open>i\<close>: the upper-case letter of a lower-case letter (of the ASCII
  letters, and of the accented ones whose upper case is below 256), the character itself
  otherwise.
\<close>

definition canonicalize :: "char \<Rightarrow> char" where
  "canonicalize c =
     (let n = (of_char c :: nat)
      in if (97 \<le> n \<and> n \<le> 122) \<or> (224 \<le> n \<and> n \<le> 254 \<and> n \<noteq> 247)
         then char_of (n - 32) else c)"

definition line_terminator :: "char \<Rightarrow> bool" where
  "line_terminator c = ((of_char c :: nat) = 10 \<or> (of_char c :: nat) = 13)"

text \<open>White space and line terminators, as removed by \<^verbatim>\<open>String.prototype.trim\<close>.\<close>

definition white_space :: "char \<Rightarrow> bool" where
  "white_space c = ((of_char c :: nat) \<in> {9, 10, 11, 12, 13, 32, 160})"

definition trim :: "string \<Rightarrow> string" where
  "trim s = rev (dropWhile white_space (rev (dropWhile white_space s)))"

datatype cls_item = CChar char | CRange char char

datatype re =
    Eps
  | Chr char
  | Dot
  | Bol
  | Cls bool "cls_item list"
  | Seq re re
  | Grp nat re
  | Rep nat "nat option" re

text \<open>
  A state of the matcher: the index reached, the rest of the input from there, and the
  captures of the groups.
\<close>

type_synonym captures = "nat \<Rightarrow> string option"

type_synonym mstate = "nat \<times> string \<times> captures"

definition char_matches :: "bool \<Rightarrow> char \<Rightarrow> char \<Rightarrow> bool" where
  "char_matches ic a c = (if ic then canonicalize a = canonicalize c else a = c)"

fun item_matches :: "bool \<Rightarrow> cls_item \<Rightarrow> char \<Rightarrow> bool" where
  "item_matches ic (CChar a) c = char_matches ic a c"
| "item_matches ic (CRange lo hi) c =
     list_ex (\<lambda>n. char_matches ic (char_of n) c) [of_char lo ..< Suc (of_char hi)]"

fun groups_of :: "re \<Rightarrow> nat list" where
  "groups_of (Seq a b) = groups_of a @ groups_of b"
| "groups_of (Grp n r) = n # groups_of r"
| "groups_of (Rep mn mx r) = groups_of r"
| "groups_of _ = []"

definition clear_groups :: "nat list \<Rightarrow> mstate \<Rightarrow> mstate" where
  "clear_groups gs st =
     (case st of (p, s, cs) \<Rightarrow> (p, s, (\<lambda>n. if n \<in> set gs then None else cs n)))"

definition capture :: "nat \<Rightarrow> mstate \<Rightarrow> mstate \<Rightarrow> mstate" where
  "capture n st st' =
     (case st of (p, s, cs) \<Rightarrow>
        (case st' of (p', s', cs') \<Rightarrow> (p', s', cs'(n \<mapsto> take (p' - p) s))))"

text \<open>
  The matchers return the states in which a match can end, in the order in which
  backtracking tries them: the head of the list is the match.

  A greedy quantifier \<open>{mn, mx}\<close> over a matcher \<open>m\<close>: one more iteration first, then none.
  An iteration that consumes nothing is refused once the minimum is reached, and the
  captures of the groups inside are reset before each iteration. The first argument bounds
  the number of iterations; \<open>mn\<close> plus the length of the rest of the input is enough.
\<close>

fun repeat_re ::
  "nat \<Rightarrow> (mstate \<Rightarrow> mstate list) \<Rightarrow> nat list \<Rightarrow> nat \<Rightarrow> nat option \<Rightarrow> mstate \<Rightarrow> mstate list" where
  "repeat_re 0 m gs mn mx st = []"
| "repeat_re (Suc fuel) m gs mn mx st =
     (if mx = Some 0 then [st]
      else concat (map (repeat_re fuel m gs (mn - 1) (map_option (\<lambda>k. k - 1) mx))
                    (filter (\<lambda>st'. mn \<noteq> 0 \<or> fst st' \<noteq> fst st) (m (clear_groups gs st))))
           @ (if mn = 0 then [st] else []))"

primrec match_re :: "bool \<Rightarrow> re \<Rightarrow> mstate \<Rightarrow> mstate list" where
  "match_re ic Eps st = [st]"
| "match_re ic (Chr a) st =
     (case st of (p, s, cs) \<Rightarrow>
        (case s of [] \<Rightarrow> []
         | c # s' \<Rightarrow> if char_matches ic a c then [(Suc p, s', cs)] else []))"
| "match_re ic Dot st =
     (case st of (p, s, cs) \<Rightarrow>
        (case s of [] \<Rightarrow> []
         | c # s' \<Rightarrow> if line_terminator c then [] else [(Suc p, s', cs)]))"
| "match_re ic Bol st = (if fst st = 0 then [st] else [])"
| "match_re ic (Cls neg items) st =
     (case st of (p, s, cs) \<Rightarrow>
        (case s of [] \<Rightarrow> []
         | c # s' \<Rightarrow>
             if list_ex (\<lambda>i. item_matches ic i c) items \<noteq> neg then [(Suc p, s', cs)] else []))"
| "match_re ic (Seq a b) st = concat (map (match_re ic b) (match_re ic a st))"
| "match_re ic (Grp n r) st = map (capture n st) (match_re ic r st)"
| "match_re ic (Rep mn mx r) st =
     repeat_re (mn + length (fst (snd st)) + 1) (match_re ic r) (groups_of r) mn mx st"

text \<open>
  The first match at or after the index \<open>p\<close>, where \<open>s\<close> is the input from \<open>p\<close> on: the index
  at which it starts and the state in which it ends.
\<close>

fun search_from :: "bool \<Rightarrow> re \<Rightarrow> nat \<Rightarrow> string \<Rightarrow> (nat \<times> mstate) option" where
  "search_from ic r p [] =
     (case match_re ic r (p, [], Map.empty) of [] \<Rightarrow> None | st # _ \<Rightarrow> Some (p, st))"
| "search_from ic r p (c # s) =
     (case match_re ic r (p, c # s, Map.empty) of
        [] \<Rightarrow> search_from ic r (Suc p) s
      | st # _ \<Rightarrow> Some (p, st))"

text \<open>\<^verbatim>\<open>RegExp.prototype.test\<close> of an expression without the flag \<^verbatim>\<open>g\<close>.\<close>

definition regex_test :: "bool \<Rightarrow> re \<Rightarrow> string \<Rightarrow> bool" where
  "regex_test ic r s = (search_from ic r 0 s \<noteq> None)"

text \<open>
  \<^verbatim>\<open>String.prototype.match\<close> with an expression without the flag \<^verbatim>\<open>g\<close>: the captures
  of the first match, or \<^verbatim>\<open>null\<close>.
\<close>

definition regex_match :: "bool \<Rightarrow> re \<Rightarrow> string \<Rightarrow> captures option" where
  "regex_match ic r s = map_option (\<lambda>(q, p, s', cs). cs) (search_from ic r 0 s)"

text \<open>
  The loop \<^verbatim>\<open>do { matcher = re.exec (text) ... } while (matcher)\<close> over an expression with
  the flag \<^verbatim>\<open>g\<close>: the captures of the successive matches, each search starting where the
  last match ended. When a match is empty, \<^verbatim>\<open>lastIndex\<close> does not advance and the loop
  does not end: the result is \<open>None\<close>.
\<close>

fun exec_loop :: "bool \<Rightarrow> re \<Rightarrow> nat \<Rightarrow> string \<Rightarrow> captures list option" where
  "exec_loop ic r p s =
     (case search_from ic r p s of
        None \<Rightarrow> Some []
      | Some (q, p', s', cs) \<Rightarrow>
          if length s' < length s
          then map_option (\<lambda>ms. cs # ms) (exec_loop ic r p' s')
          else None)"

section \<open>Reading a pattern\<close>

text \<open>
  \<^verbatim>\<open>new RegExp (source)\<close> reads the source of the pattern from left to right. The reader
  keeps the atoms of the sequence it is in (last first), the enclosing sequences of the
  open groups, the number of groups opened so far, whether the last atom may take a
  quantifier, and what it is in the middle of. It answers \<open>None\<close> on a source that
  JavaScript rejects, and on the syntax that is not part of the fragment (alternation,
  \<^verbatim>\<open>$\<close>, lazy quantifiers, class escapes, back references, non-capturing groups and
  assertions).
\<close>

datatype pmode =
    PNormal
  | PEscape
  | PClassStart
  | PClass bool "cls_item list"
  | PClassDash bool "cls_item list"
  | PBraceMin "nat option"
  | PBraceMax nat "nat option"

record pstate =
  atoms :: "re list"
  enclosing :: "(nat \<times> re list) list"
  ngroups :: nat
  quantifiable :: bool
  pmode :: pmode

definition push_atom :: "re \<Rightarrow> bool \<Rightarrow> pstate \<Rightarrow> pstate" where
  "push_atom a q ps = ps\<lparr>atoms := a # atoms ps, quantifiable := q, pmode := PNormal\<rparr>"

definition quantify :: "nat \<Rightarrow> nat option \<Rightarrow> pstate \<Rightarrow> pstate option" where
  "quantify mn mx ps =
     (case atoms ps of
        [] \<Rightarrow> None
      | a # as \<Rightarrow>
          if quantifiable ps \<and> (case mx of None \<Rightarrow> True | Some k \<Rightarrow> mn \<le> k)
          then Some (ps\<lparr>atoms := Rep mn mx a # as, quantifiable := False, pmode := PNormal\<rparr>)
          else None)"

fun seq_of :: "re list \<Rightarrow> re" where
  "seq_of [] = Eps"
| "seq_of (a # as) = Seq a (seq_of as)"

definition digit_of :: "char \<Rightarrow> nat option" where
  "digit_of c =
     (let n = (of_char c :: nat) in if 48 \<le> n \<and> n \<le> 57 then Some (n - 48) else None)"

definition add_digit :: "nat option \<Rightarrow> nat \<Rightarrow> nat option" where
  "add_digit acc d = (case acc of None \<Rightarrow> Some d | Some n \<Rightarrow> Some (10 * n + d))"

definition parse_normal :: "pstate \<Rightarrow> char \<Rightarrow> pstate option" where
  "parse_normal ps c =
     (if c = CHR 0x5C then Some (ps\<lparr>pmode := PEscape\<rparr>)
      else if c = CHR ''['' then Some (ps\<lparr>pmode := PClassStart\<rparr>)
      else if c = CHR ''('' then
        Some (ps\<lparr>atoms := [], enclosing := (Suc (ngroups ps), atoms ps) # enclosing ps,
                 ngroups := Suc (ngroups ps), quantifiable := False\<rparr>)
      else if c = CHR '')'' then
        (case enclosing ps of
           [] \<Rightarrow> None
         | (n, outer) # rest \<Rightarrow>
             Some (ps\<lparr>atoms := Grp n (seq_of (rev (atoms ps))) # outer, enclosing := rest,
                      quantifiable := True\<rparr>))
      else if c = CHR ''*'' then quantify 0 None ps
      else if c = CHR ''+'' then quantify 1 None ps
      else if c = CHR ''?'' then quantify 0 (Some 1) ps
      else if c = CHR ''{'' then
        (if quantifiable ps then Some (ps\<lparr>pmode := PBraceMin None\<rparr>) else None)
      else if c = CHR ''|'' \<or> c = CHR ''$'' then None
      else if c = CHR ''.'' then Some (push_atom Dot True ps)
      else if c = CHR ''^'' then Some (push_atom Bol False ps)
      else Some (push_atom (Chr c) True ps))"

definition parse_char :: "pstate \<Rightarrow> char \<Rightarrow> pstate option" where
  "parse_char ps c =
     (case pmode ps of
        PNormal \<Rightarrow> parse_normal ps c
      | PEscape \<Rightarrow>
          if is_alnum c \<or> c = CHR ''_'' then None else Some (push_atom (Chr c) True ps)
      | PClassStart \<Rightarrow>
          if c = CHR ''^'' then Some (ps\<lparr>pmode := PClass True []\<rparr>)
          else if c = CHR '']'' then Some (push_atom (Cls False []) True ps)
          else if c = CHR 0x5C then None
          else Some (ps\<lparr>pmode := PClass False [CChar c]\<rparr>)
      | PClass neg items \<Rightarrow>
          if c = CHR '']'' then Some (push_atom (Cls neg (rev items)) True ps)
          else if c = CHR 0x5C then None
          else if c = CHR ''-'' then
            (case items of
               CChar a # rest \<Rightarrow> Some (ps\<lparr>pmode := PClassDash neg items\<rparr>)
             | _ \<Rightarrow> Some (ps\<lparr>pmode := PClass neg (CChar c # items)\<rparr>))
          else Some (ps\<lparr>pmode := PClass neg (CChar c # items)\<rparr>)
      | PClassDash neg items \<Rightarrow>
          if c = CHR '']'' then Some (push_atom (Cls neg (rev (CChar CHR ''-'' # items))) True ps)
          else if c = CHR 0x5C then None
          else (case items of
                  CChar a # rest \<Rightarrow>
                    if (of_char a :: nat) \<le> of_char c
                    then Some (ps\<lparr>pmode := PClass neg (CRange a c # rest)\<rparr>)
                    else None
                | _ \<Rightarrow> None)
      | PBraceMin acc \<Rightarrow>
          (case digit_of c of
             Some d \<Rightarrow> Some (ps\<lparr>pmode := PBraceMin (add_digit acc d)\<rparr>)
           | None \<Rightarrow>
               (case acc of
                  None \<Rightarrow> None
                | Some mn \<Rightarrow>
                    if c = CHR '','' then Some (ps\<lparr>pmode := PBraceMax mn None\<rparr>)
                    else if c = CHR ''}'' then quantify mn (Some mn) ps
                    else None))
      | PBraceMax mn acc \<Rightarrow>
          (case digit_of c of
             Some d \<Rightarrow> Some (ps\<lparr>pmode := PBraceMax mn (add_digit acc d)\<rparr>)
           | None \<Rightarrow> if c = CHR ''}'' then quantify mn acc ps else None))"

fun parse_chars :: "pstate \<Rightarrow> string \<Rightarrow> pstate option" where
  "parse_chars ps [] = Some ps"
| "parse_chars ps (c # cs) =
     (case parse_char ps c of None \<Rightarrow> None | Some ps' \<Rightarrow> parse_chars ps' cs)"

definition initial_pstate :: pstate where
  "initial_pstate =
     \<lparr> atoms = [], enclosing = [], ngroups = 0, quantifiable = False, pmode = PNormal \<rparr>"

definition finish_pattern :: "pstate \<Rightarrow> re option" where
  "finish_pattern ps =
     (if pmode ps = PNormal \<and> enclosing ps = [] then Some (seq_of (rev (atoms ps))) else None)"

definition compile_re :: "string \<Rightarrow> re option" where
  "compile_re src =
     (case parse_chars initial_pstate src of None \<Rightarrow> None | Some ps \<Rightarrow> finish_pattern ps)"

section \<open>The message classifier and the mention parser\<close>

text \<open>
  \<^verbatim>\<open>isMessage\<close> is a chain of \<^verbatim>\<open>&&\<close>: it answers \<^verbatim>\<open>false\<close> when the type is not
  \<^verbatim>\<open>event\<close>, the absent \<^verbatim>\<open>body.event\<close> itself when there is none, and otherwise the
  comparison of the type of the event.
\<close>

definition isMessage :: "('m, 'r) message \<Rightarrow> jsval" where
  "isMessage msg =
     (if mtype msg \<noteq> ''event'' then JBool False
      else (case event (mbody msg) of
              None \<Rightarrow> JUndefined
            | Some ev \<Rightarrow> JBool (etype ev = Some ''message'')))"

text \<open>\<^verbatim>\<open>this.body.event.text\<close>, read when \<^verbatim>\<open>isMessage\<close> holds.\<close>

definition event_text :: "('m, 'r) message \<Rightarrow> string option" where
  "event_text msg = (case event (mbody msg) of None \<Rightarrow> None | Some ev \<Rightarrow> etext ev)"

text \<open>
  \<^verbatim>\<open>new RegExp (src, flags).test (text)\<close>: the text is converted to a string, so that an
  absent text is searched as \<^verbatim>\<open>undefined\<close>.
\<close>

definition test_pattern :: "string \<Rightarrow> bool \<Rightarrow> string option \<Rightarrow> js_error + jsval" where
  "test_pattern src ic text =
     (case compile_re src of
        None \<Rightarrow> Inl PatternNotModelled
      | Some r \<Rightarrow> Inr (JBool (regex_test ic r (template_str text))))"

definition isDirectMention :: "('m, 'r) message \<Rightarrow> js_error + jsval" where
  "isDirectMention msg =
     (if truthy (isMessage msg)
      then test_pattern (''^<@'' @ template_str (bot_user_id (mmeta msg)) @ ''>'') True
             (event_text msg)
      else Inr (isMessage msg))"

definition isMention :: "('m, 'r) message \<Rightarrow> js_error + jsval" where
  "isMention msg =
     (if truthy (isMessage msg)
      then test_pattern (''<@'' @ template_str (bot_user_id (mmeta msg)) @ ''>'') True
             (event_text msg)
      else Inr (isMessage msg))"

text \<open>\<^verbatim>\<open>matcher[1].split ('|')[0]\<close>: the part before the first bar.\<close>

definition before_bar :: "string \<Rightarrow> string" where
  "before_bar s = takeWhile (\<lambda>c. c \<noteq> CHR ''|'') s"

text \<open>Reading \<^verbatim>\<open>matcher[1].split\<close> raises a TypeError when the group did not take part.\<close>

fun push_links :: "captures list \<Rightarrow> js_error + string list" where
  "push_links [] = Inr []"
| "push_links (cs # rest) =
     (case cs 1 of
        None \<Rightarrow> Inl TypeError
      | Some g \<Rightarrow>
          (case push_links rest of Inl x \<Rightarrow> Inl x | Inr links \<Rightarrow> Inr (before_bar g # links)))"

text \<open>
  \<^verbatim>\<open>linksMentioned\<close>. The outer \<open>None\<close> is a loop that does not end.
\<close>

definition linksMentioned :: "('m, 'r) message \<Rightarrow> (js_error + string list) option" where
  "linksMentioned msg =
     (case compile_re ''<([^@^>]+)>'' of
        None \<Rightarrow> Some (Inl PatternNotModelled)
      | Some r \<Rightarrow>
          if truthy (isMessage msg)
          then map_option push_links (exec_loop False r 0 (template_str (event_text msg)))
          else Some (Inr []))"

text \<open>
  \<^verbatim>\<open>stripDirectMention\<close>: calling \<^verbatim>\<open>text.match\<close> on an absent text raises a TypeError, and
  so does \<^verbatim>\<open>match[1].trim\<close> when the group did not take part.
\<close>

definition stripDirectMention :: "('m, 'r) message \<Rightarrow> js_error + string" where
  "stripDirectMention msg =
     (if truthy (isMessage msg)
      then (case event_text msg of
              None \<Rightarrow> Inl TypeError
            | Some text \<Rightarrow>
                (case compile_re
                        (''^<@'' @ template_str (bot_user_id (mmeta msg)) @ ''>:{0,1}(.*)'') of
                   None \<Rightarrow> Inl PatternNotModelled
                 | Some r \<Rightarrow>
                     (case regex_match False r text of
                        None \<Rightarrow> Inr text
                      | Some cs \<Rightarrow>
                          (case cs 1 of None \<Rightarrow> Inl TypeError | Some g \<Rightarrow> Inr (trim g)))))
      else Inr [])"

section \<open>What the classifier is specified to compute\<close>

text \<open>
  The mention token of a bot, and the two relations of the specification between a text and
  a token: the text begins with the token, and the token occurs in the text, both up to
  the case of the letters.
\<close>

definition mention_token :: "string \<Rightarrow> string" where
  "mention_token bid = ''<@'' @ bid @ ''>''"

definition spec_begins_with_ci :: "string \<Rightarrow> string \<Rightarrow> bool" where
  "spec_begins_with_ci text tok =
     (length tok \<le> length text
      \<and> map canonicalize (take (length tok) text) = map canonicalize tok)"

definition spec_contains_ci :: "string \<Rightarrow> string \<Rightarrow> bool" where
  "spec_contains_ci text tok =
     list_ex (\<lambda>i. spec_begins_with_ci (drop i text) tok) [0 ..< Suc (length text)]"

section \<open>Sample inputs\<close>

definition meta1 :: meta where
  "meta1 = \<lparr> team_id = Some ''T1'', channel_id = Some ''C1'', user_id = Some ''U1'',
      bot_id = None, bot_token = Some ''xoxb'', app_token = Some ''xoxa'', bot_user_id = Some ''U123'' \<rparr>"

definition body1 :: body where
  "body1 = \<lparr> event = Some \<lparr> etype = Some ''message'', etext = Some ''<@U123> hello'' \<rparr> \<rparr>"

definition echo_handler :: "string \<Rightarrow> jsval \<Rightarrow> string \<times> jsval" where
  "echo_handler e s = (e, s)"

definition app0 :: "(string, string \<times> jsval) slack_app" where
  "app0 = \<lparr> convoStore = \<lparr> entries = Map.empty, calls = [] \<rparr>,
            routes = [''next'' \<mapsto> echo_handler] \<rparr>"

definition heap0 :: "(string, string \<times> jsval) heap" where
  "heap0 = (\<lambda>r. app0)"

definition msg1 :: "(string, string \<times> jsval) message" where
  "msg1 = attachSlackApp (new_message ''event'' body1 meta1) 0"

definition stale_continuation :: continuation where
  "stale_continuation = \<lparr> fnKey = ''removed'', state = JStr ''pizza'', expiration = 5000 \<rparr>"

definition heap_stale :: "(string, string \<times> jsval) heap" where
  "heap_stale = (\<lambda>r. app0\<lparr>convoStore :=
      \<lparr> entries = [''T1::C1::U1'' \<mapsto> stale_continuation], calls = [] \<rparr>\<rparr>)"

definition event_msg :: "string \<Rightarrow> string \<Rightarrow> (string, string \<times> jsval) message" where
  "event_msg bid txt =
     new_message ''event'' \<lparr> event = Some \<lparr> etype = Some ''message'', etext = Some txt \<rparr> \<rparr>
       (meta1\<lparr>bot_user_id := Some bid\<rparr>)"

definition msg_app_token :: "(string, string \<times> jsval) message" where
  "msg_app_token = attachSlackApp (new_message ''event'' body1 (meta1\<lparr>bot_token := None\<rparr>)) 0"

definition msg_empty_bot_token :: "(string, string \<times> jsval) message" where
  "msg_empty_bot_token =
     attachSlackApp (new_message ''event'' body1 (meta1\<lparr>bot_token := Some []\<rparr>)) 0"

section \<open>Properties\<close>


lemma join3: "join sep [a, b, c] = join_elem a @ sep @ join_elem b @ sep @ join_elem c"
  by simp




text \<open>
  C1 (amended). After \<^verbatim>\<open>route (k, st, ttl)\<close> at time \<open>now\<close> has stored the continuation, and
  at any time \<open>t\<close> before its stored expiry, resolving the continuation for a message of the
  same conversation and calling the override with an event \<open>e\<close> calls the handler
  registered under \<open>k\<close> as \<open>fn e st\<close> when \<open>st\<close> is truthy, and as \<open>fn e {}\<close> when \<open>st\<close> is
  falsy.
\<close>

theorem route_then_resolve_calls_handler:
  assumes "slackapp msg = Some r" and "slackapp msg2 = Some r"
    and "conversation_id msg2 = conversation_id msg"
    and "getRoute (h r) k = Some fn"
    and "t < now + (case ttl of None \<Rightarrow> 3600 | Some n \<Rightarrow> if n = 0 then 3600 else n) * 1000"
  shows "route_then_resolve h now msg k st ttl t msg2 e
           = Inr (Some (fn e (if truthy st then st else JObj fmempty)))"
proof -
  have e: "now + (case ttl of None \<Rightarrow> hour | Some n \<Rightarrow> if n = 0 then hour else n) * 1000
      = now + (case ttl of None \<Rightarrow> 3600 | Some n \<Rightarrow> if n = 0 then 3600 else n) * 1000"
    by (simp add: hour_def split: option.splits)
  obtain h' where r: "route h now msg k st ttl = Inr (h', msg)"
    and st: "store_get (convoStore (h' r)) (conversation_id msg) =
      Some \<lparr> fnKey = k, state = (if truthy st then st else JObj fmempty),
             expiration = now + (case ttl of None \<Rightarrow> 3600
                                 | Some n \<Rightarrow> if n = 0 then 3600 else n) * 1000 \<rparr>"
    and g: "getRoute (h' r) k = Some fn"
    using assms(1,4) e
    by (simp add: route_def store_get_def store_set_def getRoute_def Let_def)
  have "resolve_override_at h' t msg2 =
      Inr (msg2\<lparr>override := Some (\<lambda>m. fn m (if truthy st then st else JObj fmempty))\<rparr>)"
    using assms(2,3,5) st g
    by (simp add: resolve_override_at_def attachOverrideRoute_def)
  with r show ?thesis
    by (simp add: route_then_resolve_def call_override_def)
qed

lemma msg1_app: "slackapp msg1 = Some 0"
  by (simp add: msg1_def attachSlackApp_def)

lemma heap0_next: "getRoute (heap0 0) ''next'' = Some echo_handler"
  by (simp add: heap0_def app0_def getRoute_def)

theorem route_then_resolve_calls_handler_witness:
  "slackapp msg1 = Some 0 \<and> getRoute (heap0 0) ''next'' = Some echo_handler
   \<and> (60999 :: int) < 1000 + 60 * 1000
   \<and> route_then_resolve heap0 1000 msg1 ''next'' (JStr ''pizza'') (Some 60) 60999 msg1 ''hi''
       = Inr (Some (''hi'', JStr ''pizza''))"
proof -
  have t: "(60999 :: int) < 1000 + (case Some 60 of None \<Rightarrow> 3600
      | Some n \<Rightarrow> if n = 0 then 3600 else n) * 1000"
    by simp
  have "route_then_resolve heap0 1000 msg1 ''next'' (JStr ''pizza'') (Some 60) 60999 msg1 ''hi''
      = Inr (Some (echo_handler ''hi''
          (if truthy (JStr ''pizza'') then JStr ''pizza'' else JObj fmempty)))"
    using route_then_resolve_calls_handler [where msg = msg1 and ?msg2.0 = msg1 and r = 0
        and h = heap0 and k = "''next''" and fn = echo_handler and now = 1000 and t = 60999
        and st = "JStr ''pizza''" and ttl = "Some 60" and e = "''hi''"]
      msg1_app heap0_next t
    by blast
  then have "route_then_resolve heap0 1000 msg1 ''next'' (JStr ''pizza'') (Some 60) 60999 msg1 ''hi''
      = Inr (Some (''hi'', JStr ''pizza''))"
    by (simp add: echo_handler_def)
  with msg1_app heap0_next show ?thesis by simp
qed

theorem route_then_resolve_falsy_state_counterexample:
  "route_then_resolve heap0 1000 msg1 ''next'' (JBool False) (Some 60) 2000 msg1 ''hi''
     = Inr (Some (''hi'', JObj fmempty))
   \<and> route_then_resolve heap0 1000 msg1 ''next'' (JBool False) (Some 60) 2000 msg1 ''hi''
     \<noteq> Inr (Some (echo_handler ''hi'' (JBool False)))"
  by (simp add: route_then_resolve_def route_def resolve_override_at_def store_get_def
      store_set_def attachOverrideRoute_def call_override_def getRoute_def Let_def hour_def
      msg1_def attachSlackApp_def heap0_def app0_def echo_handler_def)

text \<open>
  C2 (amended). \<^verbatim>\<open>route (k, st, ttl)\<close> at time \<open>now\<close> makes one write to the store, under
  the conversation key of the message, of the record of \<open>k\<close>, the state (an empty object
  when \<open>st\<close> is falsy) and the expiration \<open>now + ttl * 1000\<close>, with one hour for an omitted
  or zero \<open>ttl\<close>; the entry replaces any earlier one and no other entry changes.
\<close>

theorem route_writes_once:
  assumes "slackapp msg = Some r"
  shows "store_after_route h now msg k st ttl =
           Some \<lparr> entries = (entries (convoStore (h r)))
                     (conversation_id msg \<mapsto>
                        \<lparr> fnKey = k,
                          state = (if truthy st then st else JObj fmempty),
                          expiration = now + (case ttl of None \<Rightarrow> 3600
                                              | Some n \<Rightarrow> if n = 0 then 3600 else n) * 1000 \<rparr>),
                   calls = calls (convoStore (h r)) @
                     [StoreSet (conversation_id msg)
                        \<lparr> fnKey = k,
                          state = (if truthy st then st else JObj fmempty),
                          expiration = now + (case ttl of None \<Rightarrow> 3600
                                              | Some n \<Rightarrow> if n = 0 then 3600 else n) * 1000 \<rparr>] \<rparr>"
  using assms
  by (simp add: store_after_route_def route_def store_set_def Let_def hour_def
      split: option.splits)

theorem route_writes_once_witness:
  "slackapp msg1 = Some 0 \<and>
   map_option calls (store_after_route heap0 1000 msg1 ''next'' (JStr ''pizza'') None)
     = Some [StoreSet ''T1::C1::U1''
              \<lparr> fnKey = ''next'', state = JStr ''pizza'', expiration = 3601000 \<rparr>]"
  using route_writes_once [OF msg1_app, of heap0 1000 "''next''" "JStr ''pizza''" None] msg1_app
  by (simp add: heap0_def app0_def msg1_def attachSlackApp_def new_message_def
      derive_conversation_id_def meta1_def actor_id_def)

theorem route_stored_state_counterexample:
  "map_option calls (store_after_route heap0 1000 msg1 ''next'' (JStr []) (Some 60))
     = Some [StoreSet ''T1::C1::U1''
              \<lparr> fnKey = ''next'', state = JObj fmempty, expiration = 61000 \<rparr>]
   \<and> JObj fmempty \<noteq> JStr []"
  by (simp add: store_after_route_def route_def store_set_def Let_def hour_def
      heap0_def app0_def msg1_def attachSlackApp_def new_message_def
      derive_conversation_id_def meta1_def actor_id_def)

text \<open>
  C3. When the registry has no handler under the stored handler key, attaching the override
  neither fails nor changes the message: the result is the message itself, and a message
  that had no override (as every new one) still has none.
\<close>

theorem attachOverrideRoute_stale:
  assumes "slackapp msg = Some r"
    and "store_get (convoStore (h r)) (conversation_id msg) = Some c"
    and "getRoute (h r) (fnKey c) = None"
  shows "resolve_override h msg = Inr msg
       \<and> attachOverrideRoute h msg (fnKey c) (state c) = Inr msg
       \<and> override (attachSlackApp (new_message t b m) r' :: ('m, 'r) message) = None"
  using assms
  by (simp add: resolve_override_def attachOverrideRoute_def attachSlackApp_def new_message_def)

theorem attachOverrideRoute_stale_witness:
  "slackapp msg1 = Some 0
   \<and> store_get (convoStore (heap_stale 0)) (conversation_id msg1) = Some stale_continuation
   \<and> getRoute (heap_stale 0) (fnKey stale_continuation) = None
   \<and> resolve_override heap_stale msg1 = Inr msg1
   \<and> override msg1 = None"
proof -
  have a: "slackapp msg1 = Some 0"
    by (simp add: msg1_def attachSlackApp_def)
  have b: "store_get (convoStore (heap_stale 0)) (conversation_id msg1) = Some stale_continuation"
    by (simp add: store_get_def heap_stale_def msg1_def attachSlackApp_def new_message_def
        derive_conversation_id_def meta1_def actor_id_def)
  have c: "getRoute (heap_stale 0) (fnKey stale_continuation) = None"
    by (simp add: getRoute_def heap_stale_def app0_def stale_continuation_def)
  from attachOverrideRoute_stale [where msg = msg1 and r = 0 and h = heap_stale
      and c = stale_continuation and t = "''event''" and b = body1 and m = meta1 and r' = 0]
    a b c
  have d: "resolve_override heap_stale msg1 = Inr msg1" by blast
  have e: "override msg1 = None"
    by (simp add: msg1_def attachSlackApp_def new_message_def)
  from a b c d e show ?thesis by blast
qed

text \<open>
  C7 (amended). The callback of \<^verbatim>\<open>respond\<close>, for a body other than \<^verbatim>\<open>undefined\<close> and
  \<^verbatim>\<open>null\<close>: a transport error is passed on as it is; otherwise a body with a truthy
  \<^verbatim>\<open>error\<close> field gives an Error of that value; otherwise a string body containing the
  rate-limit notice gives the Error \<^verbatim>\<open>rate_limit\<close>; otherwise the callback receives
  \<^verbatim>\<open>null\<close> and the body without its \<^verbatim>\<open>ok\<close> field.
\<close>

theorem respond_callback_priority:
  "respond_callback (Some e) body = Inr (CallbackErr (Transport e))
   \<and> (fmlookup fs ''error'' = Some v \<and> truthy v \<longrightarrow>
        respond_callback None (JObj fs) = Inr (CallbackErr (Error v)))
   \<and> (string_includes s rateLimit \<longrightarrow>
        respond_callback None (JStr s) = Inr (CallbackErr (Error (JStr ''rate_limit''))))
   \<and> (\<not> string_includes s rateLimit \<longrightarrow>
        respond_callback None (JStr s) = Inr (CallbackOk (JStr s)))
   \<and> ((case fmlookup fs ''error'' of None \<Rightarrow> True | Some v \<Rightarrow> \<not> truthy v) \<longrightarrow>
        respond_callback None (JObj fs) = Inr (CallbackOk (JObj (fmdrop ''ok'' fs))))
   \<and> respond_callback None (JNum n) = Inr (CallbackOk (JNum n))
   \<and> respond_callback None (JBool b) = Inr (CallbackOk (JBool b))
   \<and> respond_callback None (JArr xs) = Inr (CallbackOk (JArr xs))"
  by (auto simp: respond_callback_def get_field_def split: option.splits)

theorem respond_callback_priority_witness:
  "respond_callback (None :: unit option)
       (JObj (fmupd ''error'' (JStr ''invalid_payload'') (fmupd ''ok'' (JBool False) fmempty)))
     = Inr (CallbackErr (Error (JStr ''invalid_payload'')))
   \<and> respond_callback (None :: unit option) (JStr (''Oops. '' @ rateLimit))
     = Inr (CallbackErr (Error (JStr ''rate_limit'')))
   \<and> respond_callback (None :: unit option) (JStr ''ok'') = Inr (CallbackOk (JStr ''ok''))
   \<and> respond_callback (None :: unit option)
       (JObj (fmupd ''ts'' (JStr ''1'') (fmupd ''ok'' (JBool True) fmempty)))
     = Inr (CallbackOk (JObj (fmupd ''ts'' (JStr ''1'') fmempty)))"
proof -
  let ?fs1 = "fmupd ''error'' (JStr ''invalid_payload'') (fmupd ''ok'' (JBool False) fmempty)"
  let ?fs2 = "fmupd ''ts'' (JStr ''1'') (fmupd ''ok'' (JBool True) fmempty)"
  have a: "string_includes (''Oops. '' @ rateLimit) rateLimit"
    by (simp add: rateLimit_def)
  have b: "\<not> string_includes ''ok'' rateLimit"
    by (simp add: rateLimit_def)
  have c: "fmdrop ''ok'' ?fs2 = fmupd ''ts'' (JStr ''1'') fmempty"
    by (simp add: fmdrop_fmupd)
  have d: "fmlookup ?fs1 ''error'' = Some (JStr ''invalid_payload'') \<and> truthy (JStr ''invalid_payload'')"
    by simp
  have e: "case fmlookup ?fs2 ''error'' of None \<Rightarrow> True | Some v \<Rightarrow> \<not> truthy v"
    by simp
  note t1 = respond_callback_priority [where ?'a = unit and fs = ?fs1
        and v = "JStr ''invalid_payload''" and s = "''Oops. '' @ rateLimit"]
  note t2 = respond_callback_priority [where ?'a = unit and fs = ?fs2 and s = "''ok''"]
  from t1 d have r1: "respond_callback (None :: unit option) (JObj ?fs1)
      = Inr (CallbackErr (Error (JStr ''invalid_payload'')))" by blast
  from t1 a have r2: "respond_callback (None :: unit option) (JStr (''Oops. '' @ rateLimit))
      = Inr (CallbackErr (Error (JStr ''rate_limit'')))" by blast
  from t2 b have r3: "respond_callback (None :: unit option) (JStr ''ok'') = Inr (CallbackOk (JStr ''ok''))"
    by blast
  from t2 e have "respond_callback (None :: unit option) (JObj ?fs2)
      = Inr (CallbackOk (JObj (fmdrop ''ok'' ?fs2)))" by blast
  with c have r4: "respond_callback (None :: unit option) (JObj ?fs2)
      = Inr (CallbackOk (JObj (fmupd ''ts'' (JStr ''1'') fmempty)))" by simp
  from r1 r2 r3 r4 show ?thesis by blast
qed

theorem respond_callback_falsy_error_counterexample:
  "fmlookup (fmupd ''error'' (JStr []) fmempty) ''error'' = Some (JStr [])
   \<and> respond_callback (None :: unit option) (JObj (fmupd ''error'' (JStr []) fmempty))
       = Inr (CallbackOk (JObj (fmupd ''error'' (JStr []) fmempty)))
   \<and> respond_callback (None :: unit option) (JObj (fmupd ''error'' (JStr []) fmempty))
       \<noteq> Inr (CallbackErr (Error (JStr [])))"
  by (simp add: respond_callback_def get_field_def fmdrop_fmupd)

lemma random_index_bounds:
  assumes "0 \<le> rnd" and "rnd < 1" and "0 < n"
  shows "random_index rnd n < n"
    and "real (random_index rnd n) / real n \<le> rnd"
    and "rnd < (real (random_index rnd n) + 1) / real n"
proof -
  have nn: "0 \<le> rnd * real n" using assms by simp
  then have fl: "0 \<le> \<lfloor>rnd * real n\<rfloor>" by simp
  have lt: "rnd * real n < real n" using assms by simp
  then have "\<lfloor>rnd * real n\<rfloor> < int n" by (simp add: floor_less_iff)
  with fl show "random_index rnd n < n" by (simp add: random_index_def nat_less_iff)
  have eq: "real (random_index rnd n) = of_int \<lfloor>rnd * real n\<rfloor>"
    using fl by (simp add: random_index_def)
  have "of_int \<lfloor>rnd * real n\<rfloor> \<le> rnd * real n" by (rule of_int_floor_le)
  with eq assms(3) show "real (random_index rnd n) / real n \<le> rnd"
    by (simp add: pos_divide_le_eq)
  have "rnd * real n < of_int \<lfloor>rnd * real n\<rfloor> + 1" by linarith
  with eq assms(3) show "rnd < (real (random_index rnd n) + 1) / real n"
    by (simp add: pos_less_divide_eq)
qed

lemma random_index_iff:
  assumes "0 \<le> rnd" and "0 < n"
  shows "random_index rnd n = i \<longleftrightarrow> real i / real n \<le> rnd \<and> rnd < (real i + 1) / real n"
proof -
  have nn: "0 \<le> rnd * real n" using assms by simp
  then have fl: "0 \<le> \<lfloor>rnd * real n\<rfloor>" by simp
  have "random_index rnd n = i \<longleftrightarrow> \<lfloor>rnd * real n\<rfloor> = int i"
    using fl by (auto simp: random_index_def)
  also have "\<dots> \<longleftrightarrow> real i \<le> rnd * real n \<and> rnd * real n < real i + 1"
    by (simp add: floor_eq_iff)
  also have "\<dots> \<longleftrightarrow> real i / real n \<le> rnd \<and> rnd < (real i + 1) / real n"
    using assms(2) by (simp add: pos_divide_le_eq pos_less_divide_eq)
  finally show ?thesis .
qed

text \<open>
  C9. For a non-empty array the result comes from an element of the array, the element at
  the drawn index; every index \<open>i\<close> is drawn exactly when the random number lies in
  \<open>[i/n, (i+1)/n)\<close>, intervals of one width; the element, or an input that is not an array,
  is wrapped as \<^verbatim>\<open>{ text: s }\<close> when it is a string \<open>s\<close> and returned unchanged otherwise.
\<close>

theorem processInput_selects_and_wraps:
  assumes "0 \<le> rnd" and "rnd < 1"
  shows "(xs \<noteq> [] \<longrightarrow>
            random_index rnd (length xs) < length xs
          \<and> xs ! random_index rnd (length xs) \<in> set xs
          \<and> (\<forall>i. random_index rnd (length xs) = i \<longleftrightarrow>
                 real i / real (length xs) \<le> rnd \<and> rnd < (real i + 1) / real (length xs))
          \<and> processInput rnd (JArr xs) =
              (case xs ! random_index rnd (length xs) of
                 JStr s \<Rightarrow> JObj (fmupd ''text'' (JStr s) fmempty)
               | v \<Rightarrow> v))
       \<and> processInput rnd (JStr s) = JObj (fmupd ''text'' (JStr s) fmempty)
       \<and> ((\<forall>ys. v \<noteq> JArr ys) \<and> (\<forall>t. v \<noteq> JStr t) \<longrightarrow> processInput rnd v = v)"
proof (intro conjI impI)
  assume ne: "xs \<noteq> []"
  then have n: "0 < length xs" by simp
  from random_index_bounds(1) [OF assms n]
  show lt: "random_index rnd (length xs) < length xs" .
  then show "xs ! random_index rnd (length xs) \<in> set xs" by simp
  show "\<forall>i. random_index rnd (length xs) = i \<longleftrightarrow>
                 real i / real (length xs) \<le> rnd \<and> rnd < (real i + 1) / real (length xs)"
    using random_index_iff [OF assms(1) n] by blast
  show "processInput rnd (JArr xs) =
              (case xs ! random_index rnd (length xs) of
                 JStr s \<Rightarrow> JObj (fmupd ''text'' (JStr s) fmempty)
               | v \<Rightarrow> v)"
    using lt by (simp add: processInput_def array_get_def Let_def split: jsval.splits)
next
  show "processInput rnd (JStr s) = JObj (fmupd ''text'' (JStr s) fmempty)"
    by (simp add: processInput_def)
next
  assume "(\<forall>ys. v \<noteq> JArr ys) \<and> (\<forall>t. v \<noteq> JStr t)"
  then show "processInput rnd v = v"
    by (cases v) (simp_all add: processInput_def)
qed

theorem processInput_selects_and_wraps_witness:
  "(0::real) \<le> 1 / 2 \<and> (1::real) / 2 < 1
   \<and> random_index (1 / 2) 3 = 1
   \<and> processInput (1 / 2) (JArr [JStr ''a'', JStr ''b'', JObj (fmupd ''text'' (JStr ''c'') fmempty)])
       = JObj (fmupd ''text'' (JStr ''b'') fmempty)
   \<and> processInput (1 / 2) (JNum 7) = JNum 7"
proof -
  have a: "(0::real) \<le> 1 / 2" and b: "(1::real) / 2 < 1" by simp_all
  let ?xs = "[JStr ''a'', JStr ''b'', JObj (fmupd ''text'' (JStr ''c'') fmempty)]"
  note t = processInput_selects_and_wraps [OF a b, where xs = ?xs and v = "JNum 7"]
  have ne: "?xs \<noteq> []" by simp
  have i: "random_index (1 / 2) (length ?xs) = 1"
    using t ne by simp
  then have i3: "random_index (1 / 2) 3 = 1" by (simp add: numeral_3_eq_3)
  from t ne have "processInput (1 / 2) (JArr ?xs) =
      (case ?xs ! random_index (1 / 2) (length ?xs) of
         JStr s \<Rightarrow> JObj (fmupd ''text'' (JStr s) fmempty) | v \<Rightarrow> v)"
    by blast
  with i have p: "processInput (1 / 2) (JArr ?xs) = JObj (fmupd ''text'' (JStr ''b'') fmempty)"
    by simp
  from t have q: "processInput (1 / 2) (JNum 7) = JNum 7" by blast
  from a b i3 p q show ?thesis by blast
qed

text \<open>
  C10 (amended). The payload posted by \<^verbatim>\<open>say\<close> has \<^verbatim>\<open>channel\<close> equal to \<^verbatim>\<open>meta.channel_id\<close> and
  \<^verbatim>\<open>token\<close> equal to \<^verbatim>\<open>meta.bot_token\<close> when there is a (non-empty) one and to
  \<^verbatim>\<open>meta.app_token\<close> otherwise, whatever the normalized input holds under these names,
  and every other property of the normalized input unchanged.
\<close>

theorem say_payload_fields:
  "get_field (say rnd msg input) ''channel'' =
     (case channel_id (mmeta msg) of None \<Rightarrow> JUndefined | Some c \<Rightarrow> JStr c)
   \<and> get_field (say rnd msg input) ''token'' =
     (case bot_token (mmeta msg) of
        Some b \<Rightarrow>
          if b \<noteq> [] then JStr b
          else (case app_token (mmeta msg) of None \<Rightarrow> JUndefined | Some a \<Rightarrow> JStr a)
      | None \<Rightarrow> (case app_token (mmeta msg) of None \<Rightarrow> JUndefined | Some a \<Rightarrow> JStr a))
   \<and> (\<forall>k. k \<noteq> ''channel'' \<and> k \<noteq> ''token'' \<longrightarrow>
          fmlookup (say rnd msg input) k = fmlookup (own_props (processInput rnd input)) k)"
  by (simp add: say_def object_assign_def get_field_def Let_def split: option.splits)

theorem say_payload_fields_witness:
  "''text'' \<noteq> ''channel'' \<and> ''text'' \<noteq> ''token''
   \<and> get_field (say (1 / 2) msg1
        (JObj (fmupd ''channel'' (JStr ''C999'') (fmupd ''token'' (JStr ''stolen'')
           (fmupd ''text'' (JStr ''hi'') fmempty))))) ''channel'' = JStr ''C1''
   \<and> get_field (say (1 / 2) msg1
        (JObj (fmupd ''channel'' (JStr ''C999'') (fmupd ''token'' (JStr ''stolen'')
           (fmupd ''text'' (JStr ''hi'') fmempty))))) ''token'' = JStr ''xoxb''
   \<and> get_field (say (1 / 2) msg_app_token
        (JObj (fmupd ''channel'' (JStr ''C999'') (fmupd ''token'' (JStr ''stolen'')
           (fmupd ''text'' (JStr ''hi'') fmempty))))) ''token'' = JStr ''xoxa''
   \<and> get_field (say (1 / 2) msg_empty_bot_token
        (JObj (fmupd ''channel'' (JStr ''C999'') (fmupd ''token'' (JStr ''stolen'')
           (fmupd ''text'' (JStr ''hi'') fmempty))))) ''token'' = JStr ''xoxa''
   \<and> fmlookup (say (1 / 2) msg1
        (JObj (fmupd ''channel'' (JStr ''C999'') (fmupd ''token'' (JStr ''stolen'')
           (fmupd ''text'' (JStr ''hi'') fmempty))))) ''text'' = Some (JStr ''hi'')"
proof -
  let ?input = "JObj (fmupd ''channel'' (JStr ''C999'') (fmupd ''token'' (JStr ''stolen'')
         (fmupd ''text'' (JStr ''hi'') fmempty)))"
  note t = say_payload_fields [of "1 / 2" msg1 ?input]
  note u = say_payload_fields [of "1 / 2" msg_app_token ?input]
  note v = say_payload_fields [of "1 / 2" msg_empty_bot_token ?input]
  have p: "processInput (1 / 2) ?input = ?input" by (simp add: processInput_def)
  have m: "channel_id (mmeta msg1) = Some ''C1''" "bot_token (mmeta msg1) = Some ''xoxb''"
    by (simp_all add: msg1_def attachSlackApp_def new_message_def meta1_def)
  have mu: "bot_token (mmeta msg_app_token) = None"
      "app_token (mmeta msg_app_token) = Some ''xoxa''"
    by (simp_all add: msg_app_token_def attachSlackApp_def new_message_def meta1_def)
  have mv: "bot_token (mmeta msg_empty_bot_token) = Some []"
      "app_token (mmeta msg_empty_bot_token) = Some ''xoxa''"
    by (simp_all add: msg_empty_bot_token_def attachSlackApp_def new_message_def meta1_def)
  have k: "''text'' \<noteq> ''channel'' \<and> ''text'' \<noteq> ''token''" by simp
  have c: "get_field (say (1 / 2) msg1 ?input) ''channel'' = JStr ''C1''"
    using t [THEN conjunct1] by (simp only: m option.case)
  have d: "get_field (say (1 / 2) msg1 ?input) ''token'' = JStr ''xoxb''"
    using t [THEN conjunct2, THEN conjunct1] by (simp add: m)
  have d2: "get_field (say (1 / 2) msg_app_token ?input) ''token'' = JStr ''xoxa''"
    using u [THEN conjunct2, THEN conjunct1] by (simp only: mu option.case)
  have d3: "get_field (say (1 / 2) msg_empty_bot_token ?input) ''token'' = JStr ''xoxa''"
    using v [THEN conjunct2, THEN conjunct1] by (simp add: mv)
  have "fmlookup (say (1 / 2) msg1 ?input) ''text''
      = fmlookup (own_props (processInput (1 / 2) ?input)) ''text''"
    using t [THEN conjunct2, THEN conjunct2, THEN spec, of "''text''"] k by (rule mp)
  with p have e: "fmlookup (say (1 / 2) msg1 ?input) ''text'' = Some (JStr ''hi'')"
    by simp
  from k c d d2 d3 e show ?thesis by blast
qed

theorem say_empty_bot_token_counterexample:
  "bot_token (mmeta msg_empty_bot_token) = Some []
   \<and> app_token (mmeta msg_empty_bot_token) = Some ''xoxa''
   \<and> get_field (say (1 / 2) msg_empty_bot_token (JStr ''hi'')) ''token'' = JStr ''xoxa''
   \<and> get_field (say (1 / 2) msg_empty_bot_token (JStr ''hi'')) ''token'' \<noteq> JStr []"
  by (simp add: say_def object_assign_def get_field_def processInput_def
      msg_empty_bot_token_def attachSlackApp_def new_message_def meta1_def)

lemma parse_normal_alnum:
  assumes "is_alnum c"
  shows "parse_normal ps c = Some (push_atom (Chr c) True ps)"
proof -
  have "c \<noteq> CHR 0x5C" "c \<noteq> CHR ''[''" "c \<noteq> CHR ''(''" "c \<noteq> CHR '')''" "c \<noteq> CHR ''*''"
    "c \<noteq> CHR ''+''" "c \<noteq> CHR ''?''" "c \<noteq> CHR ''{''" "c \<noteq> CHR ''|''" "c \<noteq> CHR ''$''"
    "c \<noteq> CHR ''.''" "c \<noteq> CHR ''^''"
    using assms by (auto simp: is_alnum_def)
  then show ?thesis by (simp add: parse_normal_def)
qed

lemma parse_chars_append:
  "parse_chars ps (xs @ ys) =
     (case parse_chars ps xs of None \<Rightarrow> None | Some ps' \<Rightarrow> parse_chars ps' ys)"
  by (induction xs arbitrary: ps) (auto split: option.splits)

lemma parse_chars_alnum:
  assumes "\<forall>c \<in> set lit. is_alnum c" and "pmode ps = PNormal"
  shows "\<exists>q. parse_chars ps lit =
           Some (ps\<lparr>atoms := rev (map Chr lit) @ atoms ps, quantifiable := q\<rparr>)"
  using assms
proof (induction lit arbitrary: ps)
  case Nil
  have "ps = ps\<lparr>atoms := atoms ps, quantifiable := quantifiable ps\<rparr>" by simp
  then show ?case by (metis append_Nil list.simps(8) parse_chars.simps(1) rev.simps(1))
next
  case (Cons c cs)
  then have c: "is_alnum c" and cs: "\<forall>c \<in> set cs. is_alnum c" by simp_all
  let ?ps' = "push_atom (Chr c) True ps"
  have st: "parse_char ps c = Some ?ps'"
    using Cons.prems(2) c by (simp add: parse_char_def parse_normal_alnum)
  have m: "pmode ?ps' = PNormal" by (simp add: push_atom_def)
  from Cons.IH [OF cs m] obtain q where
    "parse_chars ?ps' cs = Some (?ps'\<lparr>atoms := rev (map Chr cs) @ atoms ?ps', quantifiable := q\<rparr>)"
    by blast
  then have "parse_chars ps (c # cs) =
      Some (ps\<lparr>atoms := rev (map Chr (c # cs)) @ atoms ps, quantifiable := q\<rparr>)"
    using st Cons.prems(2) by (simp add: push_atom_def)
  then show ?case by blast
qed

lemma seq_of_append: "seq_of (xs @ ys) = foldr Seq xs (seq_of ys)"
  by (induction xs) auto

lemma compile_direct_mention:
  assumes "\<forall>c \<in> set bid. is_alnum c"
  shows "compile_re (''^<@'' @ bid @ ''>'') =
           Some (Seq Bol (foldr Seq (map Chr (mention_token bid)) Eps))"
proof -
  let ?p0 = "\<lparr> atoms = [Chr CHR ''@'', Chr CHR ''<'', Bol], enclosing = [], ngroups = 0,
               quantifiable = True, pmode = PNormal \<rparr>"
  have a: "parse_chars initial_pstate ''^<@'' = Some ?p0"
    by (simp add: initial_pstate_def parse_char_def parse_normal_def push_atom_def)
  from parse_chars_alnum [OF assms, of ?p0] obtain q where
    b: "parse_chars ?p0 bid = Some (?p0\<lparr>atoms := rev (map Chr bid) @ atoms ?p0, quantifiable := q\<rparr>)"
    by auto
  have "parse_chars initial_pstate (''^<@'' @ (bid @ ''>'')) =
      Some \<lparr> atoms = Chr CHR ''>'' # rev (map Chr bid) @ [Chr CHR ''@'', Chr CHR ''<'', Bol],
             enclosing = [], ngroups = 0, quantifiable = True, pmode = PNormal \<rparr>"
    unfolding parse_chars_append [of _ "''^<@''"] a option.case
      parse_chars_append [of _ bid] b
    by (simp add: parse_char_def parse_normal_def push_atom_def)
  then show ?thesis
    by (simp add: compile_re_def finish_pattern_def mention_token_def seq_of_append)
qed

lemma compile_mention:
  assumes "\<forall>c \<in> set bid. is_alnum c"
  shows "compile_re (''<@'' @ bid @ ''>'') = Some (foldr Seq (map Chr (mention_token bid)) Eps)"
proof -
  let ?p0 = "\<lparr> atoms = [Chr CHR ''@'', Chr CHR ''<''], enclosing = [], ngroups = 0,
               quantifiable = True, pmode = PNormal \<rparr>"
  have a: "parse_chars initial_pstate ''<@'' = Some ?p0"
    by (simp add: initial_pstate_def parse_char_def parse_normal_def push_atom_def)
  from parse_chars_alnum [OF assms, of ?p0] obtain q where
    b: "parse_chars ?p0 bid = Some (?p0\<lparr>atoms := rev (map Chr bid) @ atoms ?p0, quantifiable := q\<rparr>)"
    by auto
  have "parse_chars initial_pstate (''<@'' @ (bid @ ''>'')) =
      Some \<lparr> atoms = Chr CHR ''>'' # rev (map Chr bid) @ [Chr CHR ''@'', Chr CHR ''<''],
             enclosing = [], ngroups = 0, quantifiable = True, pmode = PNormal \<rparr>"
    unfolding parse_chars_append [of _ "''<@''"] a option.case
      parse_chars_append [of _ bid] b
    by (simp add: parse_char_def parse_normal_def push_atom_def)
  then show ?thesis
    by (simp add: compile_re_def finish_pattern_def mention_token_def seq_of_append)
qed


lemma spec_begins_with_ci_Nil [simp]: "spec_begins_with_ci s []"
  by (simp add: spec_begins_with_ci_def)

lemma spec_begins_with_ci_Cons_Nil [simp]: "\<not> spec_begins_with_ci [] (t # tok)"
  by (simp add: spec_begins_with_ci_def)

lemma spec_begins_with_ci_Cons [simp]:
  "spec_begins_with_ci (c # s) (t # tok) \<longleftrightarrow>
     canonicalize c = canonicalize t \<and> spec_begins_with_ci s tok"
  by (auto simp: spec_begins_with_ci_def)

lemma match_literal:
  "match_re True (foldr Seq (map Chr tok) Eps) (p, s, cs) =
     (if spec_begins_with_ci s tok then [(p + length tok, drop (length tok) s, cs)] else [])"
proof (induction tok arbitrary: p s)
  case Nil
  then show ?case by simp
next
  case (Cons t tok)
  show ?case
  proof (cases s)
    case Nil
    then show ?thesis by simp
  next
    case (Cons c s')
    then show ?thesis
      using Cons.IH [of "Suc p" s'] by (auto simp: char_matches_def)
  qed
qed

lemma search_from_bol_later:
  "0 < p \<Longrightarrow> search_from ic (Seq Bol r) p s = None"
  by (induction s arbitrary: p) simp_all

lemma regex_test_bol:
  "regex_test ic (Seq Bol r) s \<longleftrightarrow> match_re ic r (0, s, Map.empty) \<noteq> []"
  by (cases s) (auto simp: regex_test_def search_from_bol_later split: list.splits)

lemma search_from_None_iff:
  "search_from ic r p s = None \<longleftrightarrow>
     (\<forall>i \<le> length s. match_re ic r (p + i, drop i s, Map.empty) = [])"
proof (induction s arbitrary: p)
  case Nil
  then show ?case by (simp split: list.splits)
next
  case (Cons c s)
  show ?case
  proof (cases "match_re ic r (p, c # s, Map.empty)")
    case Nil
    have "(\<forall>i \<le> length (c # s). match_re ic r (p + i, drop i (c # s), Map.empty) = [])
        \<longleftrightarrow> (\<forall>i \<le> length s. match_re ic r (Suc p + i, drop i s, Map.empty) = [])"
    proof
      assume a: "\<forall>i \<le> length (c # s). match_re ic r (p + i, drop i (c # s), Map.empty) = []"
      show "\<forall>i \<le> length s. match_re ic r (Suc p + i, drop i s, Map.empty) = []"
      proof (intro allI impI)
        fix i assume "i \<le> length s"
        with a have "match_re ic r (p + Suc i, drop (Suc i) (c # s), Map.empty) = []"
          by (metis Suc_le_mono length_Cons)
        then show "match_re ic r (Suc p + i, drop i s, Map.empty) = []" by simp
      qed
    next
      assume a: "\<forall>i \<le> length s. match_re ic r (Suc p + i, drop i s, Map.empty) = []"
      show "\<forall>i \<le> length (c # s). match_re ic r (p + i, drop i (c # s), Map.empty) = []"
      proof (intro allI impI)
        fix i assume i: "i \<le> length (c # s)"
        show "match_re ic r (p + i, drop i (c # s), Map.empty) = []"
        proof (cases i)
          case 0
          with Nil show ?thesis by simp
        next
          case (Suc j)
          with i a have "match_re ic r (Suc p + j, drop j s, Map.empty) = []" by simp
          with Suc show ?thesis by simp
        qed
      qed
    qed
    with Nil Cons.IH [of "Suc p"] show ?thesis by simp
  next
    case (Cons st rest)
    then have "search_from ic r p (c # s) \<noteq> None" by simp
    moreover have "\<not> (\<forall>i \<le> length (c # s). match_re ic r (p + i, drop i (c # s), Map.empty) = [])"
      using Cons by (auto intro: exI [of _ 0])
    ultimately show ?thesis by blast
  qed
qed

lemma spec_contains_ci_iff:
  "spec_contains_ci text tok \<longleftrightarrow> (\<exists>i \<le> length text. spec_begins_with_ci (drop i text) tok)"
proof -
  have "spec_contains_ci text tok \<longleftrightarrow>
      (\<exists>i \<in> set [0 ..< Suc (length text)]. spec_begins_with_ci (drop i text) tok)"
    by (simp only: spec_contains_ci_def list_ex_iff)
  also have "\<dots> \<longleftrightarrow> (\<exists>i. i < Suc (length text) \<and> spec_begins_with_ci (drop i text) tok)"
    by (simp only: set_upt atLeastLessThan_iff bex_simps Bex_def) simp
  also have "\<dots> \<longleftrightarrow> (\<exists>i \<le> length text. spec_begins_with_ci (drop i text) tok)"
    by (simp only: less_Suc_eq_le)
  finally show ?thesis .
qed

lemma regex_test_literal:
  "regex_test True (foldr Seq (map Chr tok) Eps) text \<longleftrightarrow> spec_contains_ci text tok"
proof -
  have "regex_test True (foldr Seq (map Chr tok) Eps) text \<longleftrightarrow>
      \<not> (\<forall>i \<le> length text.
           match_re True (foldr Seq (map Chr tok) Eps) (0 + i, drop i text, Map.empty) = [])"
    by (simp only: regex_test_def search_from_None_iff)
  also have "\<dots> \<longleftrightarrow> (\<exists>i \<le> length text. spec_begins_with_ci (drop i text) tok)"
    by (auto simp: match_literal)
  finally show ?thesis by (simp only: spec_contains_ci_iff)
qed

lemma regex_test_bol_literal:
  "regex_test True (Seq Bol (foldr Seq (map Chr tok) Eps)) text \<longleftrightarrow> spec_begins_with_ci text tok"
  by (simp add: regex_test_bol match_literal)

lemma truthy_isMessage: "truthy (isMessage msg) \<longleftrightarrow> isMessage msg = JBool True"
  by (auto simp: isMessage_def split: option.splits)


lemma spec_contains_ci_first:
  assumes "spec_contains_ci text (t # tok)"
  shows "\<exists>c \<in> set text. canonicalize c = canonicalize t"
proof -
  from assms obtain i where "spec_begins_with_ci (drop i text) (t # tok)"
    by (auto simp: spec_contains_ci_iff)
  then obtain c s where d: "drop i text = c # s" and "canonicalize c = canonicalize t"
    by (cases "drop i text") auto
  moreover from d have "c \<in> set text" by (metis in_set_dropD list.set_intros(1))
  ultimately show ?thesis by blast
qed

lemma undefined_contains_no_token:
  "\<not> spec_contains_ci ''undefined'' (mention_token bid)"
proof -
  have "\<forall>c \<in> set ''undefined''. canonicalize c \<noteq> canonicalize CHR ''<''"
    by code_simp
  then show ?thesis
    using spec_contains_ci_first [of "''undefined''" "CHR ''<''" "CHR ''@'' # bid @ ''>''"]
    by (auto simp: mention_token_def)
qed

lemma undefined_begins_no_token:
  "\<not> spec_begins_with_ci ''undefined'' (mention_token bid)"
proof -
  have "canonicalize CHR ''u'' \<noteq> canonicalize CHR ''<''"
    by code_simp
  then show ?thesis
    by (simp add: mention_token_def)
qed

text \<open>
  C5 (amended). For a bot user id made of letters and digits: \<^verbatim>\<open>isDirectMention\<close> is true
  exactly when \<^verbatim>\<open>isMessage\<close> is true and the text begins with the mention token of the bot,
  up to the case of the letters; \<^verbatim>\<open>isMention\<close> is true exactly when \<^verbatim>\<open>isMessage\<close> is true
  and the token occurs in the text, up to the case of the letters; neither fails.
\<close>

theorem mention_predicates:
  assumes "\<forall>c \<in> set bid. is_alnum c" and "bot_user_id (mmeta msg) = Some bid"
  shows "(isDirectMention msg = Inr (JBool True) \<longleftrightarrow>
            isMessage msg = JBool True
            \<and> (\<exists>txt. event_text msg = Some txt \<and> spec_begins_with_ci txt (mention_token bid)))
       \<and> (isMention msg = Inr (JBool True) \<longleftrightarrow>
            isMessage msg = JBool True
            \<and> (\<exists>txt. event_text msg = Some txt \<and> spec_contains_ci txt (mention_token bid)))
       \<and> (\<exists>v. isDirectMention msg = Inr v) \<and> (\<exists>w. isMention msg = Inr w)"
proof -
  have cd: "compile_re (''^<@'' @ template_str (bot_user_id (mmeta msg)) @ ''>'') =
      Some (Seq Bol (foldr Seq (map Chr (mention_token bid)) Eps))"
    by (simp only: assms(2) template_str.simps compile_direct_mention [OF assms(1)])
  have cm: "compile_re (''<@'' @ template_str (bot_user_id (mmeta msg)) @ ''>'') =
      Some (foldr Seq (map Chr (mention_token bid)) Eps)"
    by (simp only: assms(2) template_str.simps compile_mention [OF assms(1)])
  have d: "isDirectMention msg =
      Inr (if isMessage msg = JBool True
           then JBool (spec_begins_with_ci (template_str (event_text msg)) (mention_token bid))
           else isMessage msg)"
    unfolding isDirectMention_def test_pattern_def cd
    by (simp add: truthy_isMessage regex_test_bol_literal)
  have m: "isMention msg =
      Inr (if isMessage msg = JBool True
           then JBool (spec_contains_ci (template_str (event_text msg)) (mention_token bid))
           else isMessage msg)"
    unfolding isMention_def test_pattern_def cm
    by (simp add: truthy_isMessage regex_test_literal)
  have b: "spec_begins_with_ci (template_str (event_text msg)) (mention_token bid) \<longleftrightarrow>
      (\<exists>txt. event_text msg = Some txt \<and> spec_begins_with_ci txt (mention_token bid))"
    using undefined_begins_no_token [of bid] by (cases "event_text msg") auto
  have c: "spec_contains_ci (template_str (event_text msg)) (mention_token bid) \<longleftrightarrow>
      (\<exists>txt. event_text msg = Some txt \<and> spec_contains_ci txt (mention_token bid))"
    using undefined_contains_no_token [of bid] by (cases "event_text msg") auto
  show ?thesis
    unfolding d m b c by auto
qed

theorem mention_predicates_witness:
  "list_all is_alnum ''U123''
   \<and> isDirectMention (event_msg ''U123'' ''<@U123> hello'') = Inr (JBool True)
   \<and> isMention (event_msg ''U123'' ''<@U123> hello'') = Inr (JBool True)
   \<and> isDirectMention (event_msg ''U123'' ''hi <@U123>'') \<noteq> Inr (JBool True)
   \<and> isMention (event_msg ''U123'' ''hi <@U123>'') = Inr (JBool True)"
proof -
  have a: "\<forall>c \<in> set ''U123''. is_alnum c"
    by (simp add: is_alnum_def)
  have b: "bot_user_id (mmeta (event_msg ''U123'' s)) = Some ''U123''" for s
    by (simp add: event_msg_def new_message_def)
  have im: "isMessage (event_msg ''U123'' s) = JBool True" for s
    by (simp add: isMessage_def event_msg_def new_message_def)
  have tx: "event_text (event_msg ''U123'' s) = Some s" for s
    by (simp add: event_text_def event_msg_def new_message_def)
  have s1: "spec_begins_with_ci ''<@U123> hello'' (mention_token ''U123'')"
    by (simp add: mention_token_def)
  have s2: "spec_contains_ci ''<@U123> hello'' (mention_token ''U123'')"
    using s1 by (auto simp: spec_contains_ci_iff intro: exI [of _ 0])
  have s3: "\<not> spec_begins_with_ci ''hi <@U123>'' (mention_token ''U123'')"
    by code_simp
  have s4: "spec_contains_ci ''hi <@U123>'' (mention_token ''U123'')"
    by (auto simp: spec_contains_ci_iff mention_token_def intro: exI [of _ 3])
  note t1 = mention_predicates [OF a b, of "''<@U123> hello''"]
  note t2 = mention_predicates [OF a b, of "''hi <@U123>''"]
  from t1 im tx s1 have r1: "isDirectMention (event_msg ''U123'' ''<@U123> hello'') = Inr (JBool True)"
    by blast
  from t1 im tx s2 have r2: "isMention (event_msg ''U123'' ''<@U123> hello'') = Inr (JBool True)"
    by blast
  from t2 tx s3 have r3: "isDirectMention (event_msg ''U123'' ''hi <@U123>'') \<noteq> Inr (JBool True)"
    by (metis option.inject)
  from t2 im tx s4 have r4: "isMention (event_msg ''U123'' ''hi <@U123>'') = Inr (JBool True)"
    by blast
  from a have a': "list_all is_alnum ''U123''" by (simp only: list_all_iff)
  from a' r1 r2 r3 r4 show ?thesis by blast
qed

theorem direct_mention_metachar_counterexample:
  "isMessage (event_msg ''U.23'' ''<@UX23> hello'') = JBool True
   \<and> isDirectMention (event_msg ''U.23'' ''<@UX23> hello'') = Inr (JBool True)
   \<and> \<not> spec_begins_with_ci ''<@UX23> hello'' (mention_token ''U.23'')"
  by code_simp

text \<open>
  C6. \<^verbatim>\<open>stripDirectMention\<close> on the examples of the specification, and on a text of two
  lines: everything from the first line break on is dropped with the mention.
\<close>

theorem stripDirectMention_drops_later_lines:
  "stripDirectMention (event_msg ''U123'' ''<@U123>: hi there'') = Inr ''hi there''
   \<and> stripDirectMention (event_msg ''U123'' ''<@U999> hi'') = Inr ''<@U999> hi''
   \<and> stripDirectMention (event_msg ''U123'' (''<@U123> hi'' @ [CHR 0x0A] @ ''there''))
       = Inr ''hi''"
  by code_simp

text \<open>
  C8. \<^verbatim>\<open>linksMentioned\<close> on the example of the specification, and on a text with a channel
  mention, a user mention and a link: the channel mention is returned with the link.
\<close>

theorem linksMentioned_returns_channel_mention:
  "linksMentioned (event_msg ''U123'' ''<http://a.co|A> <http://b.co>'')
     = Some (Inr [''http://a.co'', ''http://b.co''])
   \<and> linksMentioned (event_msg ''U123'' ''<#C123> <@U1> <http://a.co>'')
     = Some (Inr [''#C123'', ''http://a.co''])"
  by code_simp

end
